theory Spec2Isabelle
  imports Complex_Main "HOL-Library.Word"
begin

section \<open>Conventions of the embedding\<close>

text \<open>
  The orchestrator of the narrative game (\<^verbatim>\<open>src/app/orchestrator.py\<close>) mutates one
  \<^verbatim>\<open>GameState\<close> object in place. Each function of the source becomes a HOL function
  that takes the state and returns the updated state next to its Python return value.
  An exception leaves the mutations made before it in the state, so a function that can
  raise returns an outcome of type \<open>py_error + 'a\<close> paired with the state it leaves.

  Python \<^verbatim>\<open>int\<close> is \<open>int\<close>. Python \<^verbatim>\<open>float\<close> is idealised as \<open>real\<close>: the literals
  \<^verbatim>\<open>0.1\<close>, \<open>0.2\<close> and so on are the exact rationals and no rounding takes place.
  \<^verbatim>\<open>str\<close> is \<open>string\<close>, read as the UTF-8 bytes of the text.

  \<^verbatim>\<open>hashlib.sha256\<close> and \<^verbatim>\<open>uuid.uuid4\<close> are not code of the repository. The source
  only ever reads the first eight bytes of a digest as a big-endian integer
  (\<^verbatim>\<open>int(hexdigest()[:16], 16)\<close> and \<^verbatim>\<open>int.from_bytes(digest()[:8], "big")\<close>), so every
  function that hashes takes that map, \<open>sha :: string \<Rightarrow> 64 word\<close>, as its first
  argument; fresh identifiers are arguments as well.
\<close>

type_synonym sha_head = "string \<Rightarrow> 64 word"

datatype py_error = ValidationError | IndexError

subsection \<open>Rendering values as text: \<^verbatim>\<open>str(part)\<close>\<close>

definition digit_char :: "nat \<Rightarrow> char" where
  "digit_char d =
     (if d = 0 then CHR ''0'' else if d = 1 then CHR ''1'' else if d = 2 then CHR ''2''
      else if d = 3 then CHR ''3'' else if d = 4 then CHR ''4'' else if d = 5 then CHR ''5''
      else if d = 6 then CHR ''6'' else if d = 7 then CHR ''7'' else if d = 8 then CHR ''8''
      else CHR ''9'')"

fun str_nat :: "nat \<Rightarrow> string" where
  "str_nat n = (if n < 10 then [digit_char n] else str_nat (n div 10) @ [digit_char (n mod 10)])"

declare str_nat.simps [simp del]

definition str_int :: "int \<Rightarrow> string" where
  "str_int i = (if i < 0 then CHR ''-'' # str_nat (nat (- i)) else str_nat (nat i))"

datatype part = PStr string | PInt int

fun str_part :: "part \<Rightarrow> string" where
  "str_part (PStr s) = s"
| "str_part (PInt i) = str_int i"

fun join_bar :: "string list \<Rightarrow> string" where
  "join_bar [] = []"
| "join_bar [s] = s"
| "join_bar (s # t # rest) = s @ ''|'' @ join_bar (t # rest)"

section \<open>Seed derivation and the pity roll\<close>

definition stable_seed :: "sha_head \<Rightarrow> part list \<Rightarrow> int" where
  "stable_seed sha parts = uint (sha (join_bar (map str_part parts)))"

record RollResult =
  success :: bool
  roll :: real
  probability :: real

definition roll_with_pity :: "sha_head \<Rightarrow> real \<Rightarrow> real \<Rightarrow> real \<Rightarrow> int \<Rightarrow> int \<Rightarrow> RollResult" where
  "roll_with_pity sha b d m n seed =
     (let prob = min m (b + real_of_int n * d);
          rng = sha (str_int seed);
          r = real_of_int (uint rng) / 2 ^ 64
      in \<lparr>success = (r \<le> prob), roll = r, probability = prob\<rparr>)"

section \<open>The data model (\<^verbatim>\<open>models.py\<close>, \<^verbatim>\<open>config.py\<close>, \<^verbatim>\<open>content.py\<close>)\<close>

text \<open>
  Field names are those of the source; where two classes share a field name the later
  record prefixes it (\<open>trigger_kind\<close>, \<open>msg_kind\<close>, \<open>hook_p0\<close>, ...). Dictionaries of
  type \<^verbatim>\<open>Dict[str, Any]\<close> that the orchestrator never reads (\<^verbatim>\<open>meta\<close>, \<^verbatim>\<open>reward\<close>,
  \<^verbatim>\<open>meta_progress\<close>, \<^verbatim>\<open>history_refs\<close>) are kept as association lists of text.
\<close>

datatype GamePhase = RUNNING | RUN_END | FINAL_END | ENDED

type_synonym any_dict = "(string \<times> string) list"

record TriggerState =
  exposures :: int
  p0 :: real
  dp :: real
  p_max :: real
  last_check_day :: "int option"
  last_check_stage :: "string option"
  cooldown_until_day :: int

record Trigger =
  trigger_kind :: string
  trigger_value :: string
  trigger_meta :: any_dict

record Fragment =
  fragment_id :: string
  version :: int
  day_created :: int
  run_created :: int
  anchor :: string
  emotion_tag :: string
  salience_score :: real
  reveal_level :: int
  trigger :: Trigger
  trigger_state :: TriggerState
  one_shot :: bool
  consumed :: bool
  reward :: any_dict
  meta :: any_dict

record FragmentCandidate =
  cand_anchor :: string
  cand_emotion_tag :: string
  score :: real
  cand_reveal_level :: int
  trigger_hint :: any_dict

record ProactiveState =
  hook_exposures :: "string \<rightharpoonup> int"
  hook_cooldowns :: "string \<rightharpoonup> int"

record Resources =
  ap :: int
  chat_turns :: int
  key_q :: int
  npc_initiative :: int

record Caps =
  daily_fragment_cap :: int
  daily_proactive_cap :: int

record Stats =
  affection :: int
  trust :: int
  stress :: int
  clarity :: int

record CurrentContext =
  event_id :: "string option"
  location :: "string option"
  time_slot :: "string option"
  stage_id :: "string option"

record Message =
  role :: string
  content :: string
  msg_kind :: string
  options :: "string list"

text \<open>
  One entry of \<^verbatim>\<open>trace_log\<close>. The source writes a dictionary whose subject key is
  \<^verbatim>\<open>fragment_id\<close> for a \<^verbatim>\<open>fragment_roll\<close> and \<^verbatim>\<open>hook_id\<close> for a \<^verbatim>\<open>proactive_roll\<close>;
  \<open>te_subject\<close> holds the value under that key.
\<close>

record TraceEntry =
  te_kind :: string
  te_subject :: string
  te_probability :: real
  te_roll :: real
  te_success :: bool
  te_exposures :: int
  te_stage_id :: string

record GameState =
  session_id :: string
  state_version :: int
  game_phase :: GamePhase
  run_index :: int
  max_runs :: int
  day_index :: int
  run_seed :: int
  resources :: Resources
  caps :: Caps
  stats :: Stats
  current_context :: CurrentContext
  fragments_active :: "Fragment list"
  deep_fragments :: "Fragment list"
  fragment_candidates_today :: "FragmentCandidate list"
  proactive_state :: ProactiveState
  pending_npc_messages :: "Message list"
  route_flags_local :: "string list"
  route_flags_global :: "string list"
  meta_progress :: any_dict
  inventory :: "string \<rightharpoonup> int"
  history_refs :: any_dict
  trace_log :: "TraceEntry list"
  daily_fragment_count :: int
  daily_proactive_count :: int
  event_history :: "string list"

record ApiResponse =
  resp_state :: GameState
  resp_messages :: "Message list"
  resp_ui_hints :: "string list"
  trace_id :: string

subsection \<open>Configuration and content bundles\<close>

text \<open>
  \<^verbatim>\<open>ConfigBundle\<close> holds four dictionaries loaded from YAML. The mappings \<^verbatim>\<open>run\<close>,
  \<^verbatim>\<open>resources\<close> and \<^verbatim>\<open>caps\<close> are maps from key to integer, and \<^verbatim>\<open>pity["fragment"]\<close> a
  map from key to float: a key may be missing, a present value has the type the source
  expects. \<^verbatim>\<open>cfg_pity\<close> is \<open>None\<close> when the key \<^verbatim>\<open>"fragment"\<close> is missing.
\<close>

record ConfigBundle =
  cfg_run :: "string \<rightharpoonup> int"
  cfg_resources :: "string \<rightharpoonup> int"
  cfg_caps :: "string \<rightharpoonup> int"
  cfg_pity :: "(string \<rightharpoonup> real) option"

text \<open>
  The content catalog is JSON: each record is a dictionary read with \<^verbatim>\<open>.get\<close>, so each
  key is an optional field, \<open>None\<close> when the key is missing.
\<close>

record FragmentHook =
  fh_anchor :: "string option"
  fh_emotion_tag :: "string option"
  fh_base_score :: "real option"
  fh_reveal_level :: "int option"
  fh_trigger_hint :: "any_dict option"

record ChoicePoint =
  cp_options :: "string list option"

record Event =
  ev_event_id :: "string option"
  ev_location :: "string option"
  ev_time_slot :: "string option"
  ev_base_weight :: "real option"
  ev_intro :: "string option"
  ev_outro :: "string option"
  ev_choice_points :: "ChoicePoint list option"
  ev_fragment_hooks :: "FragmentHook list option"

record Conditions =
  cond_location :: "string option"
  cond_time_slot :: "string option"
  cond_min_day :: "int option"
  cond_max_day :: "int option"

record Payload =
  pl_text :: "string option"
  pl_options :: "string list option"

record Hook =
  hook_id :: "string option"
  hook_conditions :: "Conditions option"
  hook_base_weight :: "real option"
  hook_p0 :: "real option"
  hook_dp :: "real option"
  hook_p_max :: "real option"
  hook_cooldown_days :: "int option"
  hook_payload_template :: "Payload option"
  hook_kind :: "string option"

record Ending =
  scenes :: "string list option"

record ContentBundle =
  events :: "Event list"
  hooks :: "Hook list"
  endings :: "Ending list"

section \<open>Python helpers\<close>

text \<open>
  \<^verbatim>\<open>max(xs, key=f)\<close> keeps the first element among those with the greatest key: the
  running best is replaced only by a strictly greater key. Every call of the source is
  guarded by a non-emptiness test, so the head of the list is passed apart.
\<close>

fun max_by_from :: "('a \<Rightarrow> real) \<Rightarrow> 'a \<Rightarrow> 'a list \<Rightarrow> 'a" where
  "max_by_from f best [] = best"
| "max_by_from f best (x # xs) = max_by_from f (if f x > f best then x else best) xs"

text \<open>\<^verbatim>\<open>xs[i]\<close>: a negative index counts from the end, an index out of range raises.\<close>

definition py_index :: "'a list \<Rightarrow> int \<Rightarrow> py_error + 'a" where
  "py_index xs i =
     (if 0 \<le> i \<and> i < int (length xs) then Inr (xs ! nat i)
      else if - int (length xs) \<le> i \<and> i < 0 then Inr (xs ! nat (int (length xs) + i))
      else Inl IndexError)"

text \<open>\<^verbatim>\<open>d.get(k, default)\<close> on an optional field, and the truth value of a value.\<close>

definition get_or :: "'a option \<Rightarrow> 'a \<Rightarrow> 'a" where
  "get_or v d = (case v of None \<Rightarrow> d | Some x \<Rightarrow> x)"

definition truthy_str :: "string option \<Rightarrow> bool" where
  "truthy_str v = (case v of None \<Rightarrow> False | Some x \<Rightarrow> x \<noteq> [])"

subsection \<open>Message texts\<close>

text \<open>
  The narrative literals of the source are Chinese sentences. No function branches on
  them; each is named here and stands as an English gloss.
\<close>

definition txt_day_start :: "int \<Rightarrow> string" where
  "txt_day_start d = ''Day '' @ str_int d @ '' begins.''"

definition txt_no_ap :: string where
  "txt_no_ap = ''Not enough stamina to act.''"

definition txt_event_fallback :: string where
  "txt_event_fallback = ''Nothing special happened here.''"

definition txt_chat_anchor :: string where
  "txt_chat_anchor = ''conversation''"

definition txt_chat_enough :: string where
  "txt_chat_enough = ''Enough talking for today.''"

definition txt_chat_reply :: string where
  "txt_chat_reply = ''She listens closely, as if piecing together new clues.''"

definition txt_fragment_gain :: string where
  "txt_fragment_gain = ''A new memory fragment remains.''"

definition txt_run_end :: "int \<Rightarrow> string" where
  "txt_run_end r = ''Run '' @ str_int r @ '' is over.''"

definition txt_default_scene :: string where
  "txt_default_scene = ''The story comes to a close.''"

definition txt_fragment_event :: "string \<Rightarrow> string" where
  "txt_fragment_event a = ''When she touches '' @ a @ '', a blurred image flashes through her mind.''"

definition micro_lines :: "string list" where
  "micro_lines =
     [''She blanks out for a moment, as if something surfaced and sank back.'',
      ''She presses her temple, as if hearing a very distant echo.'',
      ''Her breath catches; the emptiness in her eyes deepens.'']"

definition txt_proactive_default :: string where
  "txt_proactive_default = ''She seems to want to say something.''"

section \<open>Weighted selection\<close>

definition item_weight :: "Event \<Rightarrow> real" where
  "item_weight item = get_or (ev_base_weight item) 1"

text \<open>The \<^verbatim>\<open>for\<close> loop of \<^verbatim>\<open>select_weighted\<close>; \<open>None\<close> when the loop runs out.\<close>

fun select_weighted_loop :: "Event list \<Rightarrow> real \<Rightarrow> real \<Rightarrow> Event option" where
  "select_weighted_loop [] cumulative threshold = None"
| "select_weighted_loop (item # rest) cumulative threshold =
     (if cumulative + item_weight item \<ge> threshold then Some item
      else select_weighted_loop rest (cumulative + item_weight item) threshold)"

definition select_weighted :: "Event list \<Rightarrow> int \<Rightarrow> Event option" where
  "select_weighted items seed =
     (if items = [] then None
      else let total = sum_list (map item_weight items) in
        if total \<le> 0 then Some (hd items)
        else let rng_value = real_of_int (seed mod 10000) / 10000;
                 threshold = rng_value * total
             in (case select_weighted_loop items 0 threshold of
                   Some item \<Rightarrow> Some item
                 | None \<Rightarrow> Some (last items)))"

section \<open>Session creation and day start\<close>

text \<open>
  \<^verbatim>\<open>Resources(**config.resources)\<close> and \<^verbatim>\<open>Caps(**config.caps)\<close> are pydantic constructors.
  Every field of the two classes is declared without a default, so a missing key raises
  a validation error; a key that names no field is ignored.
\<close>

definition new_Resources :: "(string \<rightharpoonup> int) \<Rightarrow> py_error + Resources" where
  "new_Resources m =
     (case (m ''ap'', m ''chat_turns'', m ''key_q'', m ''npc_initiative'') of
        (Some a, Some c, Some k, Some n) \<Rightarrow>
          Inr \<lparr>ap = a, chat_turns = c, key_q = k, npc_initiative = n\<rparr>
      | _ \<Rightarrow> Inl ValidationError)"

definition new_Caps :: "(string \<rightharpoonup> int) \<Rightarrow> py_error + Caps" where
  "new_Caps m =
     (case (m ''daily_fragment_cap'', m ''daily_proactive_cap'') of
        (Some f, Some p) \<Rightarrow> Inr \<lparr>daily_fragment_cap = f, daily_proactive_cap = p\<rparr>
      | _ \<Rightarrow> Inl ValidationError)"

definition new_CurrentContext :: CurrentContext where
  "new_CurrentContext = \<lparr>event_id = None, location = None, time_slot = None, stage_id = None\<rparr>"

definition new_GameState :: "string \<Rightarrow> Resources \<Rightarrow> Caps \<Rightarrow> int \<Rightarrow> int \<Rightarrow> GameState" where
  "new_GameState sid res cps mr seed =
     \<lparr>session_id = sid, state_version = 1, game_phase = RUNNING, run_index = 1,
      max_runs = mr, day_index = 1, run_seed = seed, resources = res, caps = cps,
      stats = \<lparr>affection = 0, trust = 0, stress = 0, clarity = 0\<rparr>,
      current_context = new_CurrentContext, fragments_active = [], deep_fragments = [],
      fragment_candidates_today = [],
      proactive_state = \<lparr>hook_exposures = Map.empty, hook_cooldowns = Map.empty\<rparr>,
      pending_npc_messages = [], route_flags_local = [], route_flags_global = [],
      meta_progress = [], inventory = Map.empty, history_refs = [], trace_log = [],
      daily_fragment_count = 0, daily_proactive_count = 0, event_history = []\<rparr>"

text \<open>The first argument after the hash is the identifier that \<^verbatim>\<open>uuid.uuid4()\<close> returns.\<close>

definition create_initial_state :: "sha_head \<Rightarrow> string \<Rightarrow> ConfigBundle \<Rightarrow> py_error + GameState" where
  "create_initial_state sha sid config =
     (case new_Resources (cfg_resources config) of
        Inl e \<Rightarrow> Inl e
      | Inr res \<Rightarrow>
          (case new_Caps (cfg_caps config) of
             Inl e \<Rightarrow> Inl e
           | Inr cps \<Rightarrow>
               Inr (new_GameState sid res cps (get_or (cfg_run config ''max_runs'') 5)
                      (stable_seed sha [PStr sid, PStr ''run_seed'']))))"

definition day_start :: "ConfigBundle \<Rightarrow> GameState \<Rightarrow> (py_error + Message list) \<times> GameState" where
  "day_start config s =
     (case new_Resources (cfg_resources config) of
        Inl e \<Rightarrow> (Inl e, s)
      | Inr res \<Rightarrow>
          (Inr [\<lparr>role = ''system'', content = txt_day_start (day_index s),
                 msg_kind = ''day_start'', options = []\<rparr>],
           s\<lparr>resources := res, daily_fragment_count := 0, daily_proactive_count := 0,
             current_context := new_CurrentContext\<rparr>))"

section \<open>The fragment trigger engine\<close>

text \<open>
  The source filters \<^verbatim>\<open>fragments_active\<close> and mutates the chosen object in place. The
  model filters positions of the list, so that the chosen fragment is updated where it
  stands, also when another fragment has the same field values.
\<close>

definition fragment_eligible :: "GameState \<Rightarrow> string \<Rightarrow> Fragment \<Rightarrow> bool" where
  "fragment_eligible s loc fragment \<longleftrightarrow>
     \<not> consumed fragment
     \<and> trigger_kind (trigger fragment) = ''location''
     \<and> trigger_value (trigger fragment) = loc
     \<and> cooldown_until_day (trigger_state fragment) \<le> day_index s"

definition eligible_positions :: "GameState \<Rightarrow> string \<Rightarrow> nat list" where
  "eligible_positions s loc =
     filter (\<lambda>i. fragment_eligible s loc (fragments_active s ! i))
       [0 ..< length (fragments_active s)]"

definition fragment_key :: "Fragment \<Rightarrow> real" where
  "fragment_key item = salience_score item + real_of_int (exposures (trigger_state item)) * (1 / 10)"

definition fragment_roll_entry :: "Fragment \<Rightarrow> RollResult \<Rightarrow> string \<Rightarrow> TraceEntry" where
  "fragment_roll_entry fragment result stage =
     \<lparr>te_kind = ''fragment_roll'', te_subject = fragment_id fragment,
      te_probability = probability result, te_roll = roll result,
      te_success = success result, te_exposures = exposures (trigger_state fragment),
      te_stage_id = stage\<rparr>"

definition fragment_roll :: "sha_head \<Rightarrow> GameState \<Rightarrow> string \<Rightarrow> Fragment \<Rightarrow> RollResult" where
  "fragment_roll sha s stage fragment =
     (let ts = trigger_state fragment;
          seed = stable_seed sha
            [PStr (session_id s), PInt (run_index s), PInt (day_index s),
             PStr stage, PStr (fragment_id fragment)]
      in roll_with_pity sha (p0 ts) (dp ts) (p_max ts) (exposures ts) seed)"

definition fragment_trigger_check ::
  "sha_head \<Rightarrow> string \<Rightarrow> string \<Rightarrow> GameState \<Rightarrow> (py_error + Message option) \<times> GameState" where
  "fragment_trigger_check sha loc stage s =
     (if daily_fragment_count s \<ge> daily_fragment_cap (caps s) then (Inr None, s)
      else case eligible_positions s loc of
        [] \<Rightarrow> (Inr None, s)
      | i0 # rest \<Rightarrow>
          let i = max_by_from (\<lambda>j. fragment_key (fragments_active s ! j)) i0 rest;
              fragment = fragments_active s ! i;
              ts = trigger_state fragment
          in if last_check_day ts = Some (day_index s) \<and> last_check_stage ts = Some stage
             then (Inr None, s)
             else
               let result = fragment_roll sha s stage fragment;
                   ts1 = ts\<lparr>last_check_day := Some (day_index s), last_check_stage := Some stage\<rparr>;
                   s1 = s\<lparr>trace_log := trace_log s @ [fragment_roll_entry fragment result stage]\<rparr>
               in if success result then
                    (Inr (Some \<lparr>role = ''narrator'', content = txt_fragment_event (anchor fragment),
                                 msg_kind = ''fragment_event'', options = []\<rparr>),
                     s1\<lparr>fragments_active := (fragments_active s)
                           [i := fragment\<lparr>trigger_state := ts1\<lparr>exposures := 0\<rparr>,
                                          consumed := one_shot fragment\<rparr>],
                        daily_fragment_count := daily_fragment_count s + 1\<rparr>)
                  else
                    let ts2 = ts1\<lparr>exposures := exposures ts + 1\<rparr>;
                        s2 = s1\<lparr>fragments_active := (fragments_active s)
                                  [i := fragment\<lparr>trigger_state := ts2\<rparr>]\<rparr>;
                        intensity = min (exposures ts2) 3
                    in (case py_index micro_lines (intensity - 1) of
                          Inl e \<Rightarrow> (Inl e, s2)
                        | Inr line \<Rightarrow>
                            (Inr (Some \<lparr>role = ''narrator'', content = line,
                                         msg_kind = ''micro_flashback'', options = []\<rparr>), s2)))"

section \<open>The proactive hook engine\<close>

definition hook_matches_conditions :: "Hook \<Rightarrow> GameState \<Rightarrow> bool" where
  "hook_matches_conditions hook s =
     (let conditions = get_or (hook_conditions hook)
            \<lparr>cond_location = None, cond_time_slot = None, cond_min_day = None, cond_max_day = None\<rparr>
      in if truthy_str (cond_location conditions)
            \<and> cond_location conditions \<noteq> location (current_context s) then False
         else if truthy_str (cond_time_slot conditions)
            \<and> cond_time_slot conditions \<noteq> time_slot (current_context s) then False
         else if (case cond_min_day conditions of
                    None \<Rightarrow> False | Some min_day \<Rightarrow> min_day \<noteq> 0 \<and> day_index s < min_day) then False
         else if (case cond_max_day conditions of
                    None \<Rightarrow> False | Some max_day \<Rightarrow> max_day \<noteq> 0 \<and> day_index s > max_day) then False
         else True)"

definition hook_weight :: "GameState \<Rightarrow> Hook \<Rightarrow> real" where
  "hook_weight s hook =
     (let hid = get_or (hook_id hook) [];
          exposure = get_or (hook_exposures (proactive_state s) hid) 0;
          weight = get_or (hook_base_weight hook) 1 + real_of_int exposure * (2 / 10)
      in max weight (1 / 10))"

fun select_hook_loop :: "(Hook \<times> real) list \<Rightarrow> real \<Rightarrow> real \<Rightarrow> Hook option" where
  "select_hook_loop [] cumulative threshold = None"
| "select_hook_loop ((hook, weight) # rest) cumulative threshold =
     (if cumulative + weight \<ge> threshold then Some hook
      else select_hook_loop rest (cumulative + weight) threshold)"

text \<open>\<^verbatim>\<open>select_hook\<close> is only called with a non-empty list, so \<^verbatim>\<open>weighted[-1]\<close> exists.\<close>

definition select_hook :: "sha_head \<Rightarrow> Hook list \<Rightarrow> GameState \<Rightarrow> string \<Rightarrow> Hook option" where
  "select_hook sha eligible s stage =
     (let weighted = map (\<lambda>hook. (hook, hook_weight s hook)) eligible;
          total = sum_list (map snd weighted)
      in if total \<le> 0 then None
         else
           let seed = stable_seed sha
                 [PStr (session_id s), PInt (run_index s), PInt (day_index s),
                  PStr stage, PStr ''hook_select''];
               rng_value = real_of_int (seed mod 10000) / 10000;
               threshold = rng_value * total
           in (case select_hook_loop weighted 0 threshold of
                 Some hook \<Rightarrow> Some hook
               | None \<Rightarrow> Some (fst (last weighted))))"

definition hook_eligible :: "GameState \<Rightarrow> Hook \<Rightarrow> bool" where
  "hook_eligible s hook \<longleftrightarrow>
     hook_matches_conditions hook s
     \<and> get_or (hook_cooldowns (proactive_state s) (get_or (hook_id hook) [])) 0 \<le> day_index s"

definition proactive_roll_entry :: "string \<Rightarrow> RollResult \<Rightarrow> int \<Rightarrow> string \<Rightarrow> TraceEntry" where
  "proactive_roll_entry hid result n stage =
     \<lparr>te_kind = ''proactive_roll'', te_subject = hid,
      te_probability = probability result, te_roll = roll result,
      te_success = success result, te_exposures = n, te_stage_id = stage\<rparr>"

definition proactive_message :: "Hook \<Rightarrow> Message" where
  "proactive_message hook =
     (let payload = get_or (hook_payload_template hook) \<lparr>pl_text = None, pl_options = None\<rparr>
      in \<lparr>role = ''npc'', content = get_or (pl_text payload) txt_proactive_default,
          msg_kind = ''proactive_'' @ get_or (hook_kind hook) ''soft'',
          options = get_or (pl_options payload) []\<rparr>)"

definition proactive_roll :: "sha_head \<Rightarrow> GameState \<Rightarrow> string \<Rightarrow> Hook \<Rightarrow> RollResult" where
  "proactive_roll sha s stage hook =
     (let hid = get_or (hook_id hook) ''hook'';
          n = get_or (hook_exposures (proactive_state s) hid) 0;
          seed = stable_seed sha
            [PStr (session_id s), PInt (run_index s), PInt (day_index s), PStr stage, PStr hid]
      in roll_with_pity sha (get_or (hook_p0 hook) (2 / 10)) (get_or (hook_dp hook) (1 / 10))
           (get_or (hook_p_max hook) (7 / 10)) n seed)"

definition proactive_check ::
  "sha_head \<Rightarrow> ContentBundle \<Rightarrow> string \<Rightarrow> GameState \<Rightarrow> Message list \<times> GameState" where
  "proactive_check sha ct stage s =
     (if daily_proactive_count s \<ge> daily_proactive_cap (caps s) then ([], s)
      else if npc_initiative (resources s) \<le> 0 then ([], s)
      else
        let eligible = filter (hook_eligible s) (hooks ct)
        in if eligible = [] then ([], s)
           else case select_hook sha eligible s stage of
             None \<Rightarrow> ([], s)
           | Some hook \<Rightarrow>
               let hid = get_or (hook_id hook) ''hook'';
                   n = get_or (hook_exposures (proactive_state s) hid) 0;
                   result = proactive_roll sha s stage hook;
                   s1 = s\<lparr>trace_log := trace_log s @ [proactive_roll_entry hid result n stage]\<rparr>;
                   ps = proactive_state s
               in if \<not> success result then
                    ([], s1\<lparr>proactive_state := ps\<lparr>hook_exposures := (hook_exposures ps)(hid \<mapsto> n + 1)\<rparr>\<rparr>)
                  else
                    ([], s1\<lparr>proactive_state :=
                              ps\<lparr>hook_exposures := (hook_exposures ps)(hid \<mapsto> 0),
                                 hook_cooldowns := (hook_cooldowns ps)
                                   (hid \<mapsto> day_index s + get_or (hook_cooldown_days hook) 1)\<rparr>,
                            resources := (resources s)\<lparr>npc_initiative := npc_initiative (resources s) - 1\<rparr>,
                            daily_proactive_count := daily_proactive_count s + 1,
                            pending_npc_messages := pending_npc_messages s @ [proactive_message hook]\<rparr>))"

section \<open>The event selector\<close>

definition select_event :: "sha_head \<Rightarrow> ContentBundle \<Rightarrow> string \<Rightarrow> string \<Rightarrow> GameState \<Rightarrow> Event option" where
  "select_event sha ct loc slot s =
     (let candidates = filter (\<lambda>event. ev_location event = Some loc \<and> ev_time_slot event = Some slot)
                         (events ct);
          last_event_id = (if event_history s = [] then None else Some (last (event_history s)));
          weighted = map (\<lambda>event.
                        let weight = get_or (ev_base_weight event) 1
                        in event\<lparr>ev_base_weight :=
                             Some (if truthy_str last_event_id \<and> ev_event_id event = last_event_id
                                   then weight * (5 / 10) else weight)\<rparr>)
                       candidates;
          seed = stable_seed sha
            [PStr (session_id s), PInt (run_index s), PInt (day_index s), PStr loc, PStr slot]
      in select_weighted weighted seed)"

section \<open>Player actions\<close>

definition hook_candidate :: "FragmentHook \<Rightarrow> FragmentCandidate" where
  "hook_candidate hook =
     \<lparr>cand_anchor = get_or (fh_anchor hook) [],
      cand_emotion_tag = get_or (fh_emotion_tag hook) ''neutral'',
      score = get_or (fh_base_score hook) (2 / 10),
      cand_reveal_level = get_or (fh_reveal_level hook) 1,
      trigger_hint = get_or (fh_trigger_hint hook) []\<rparr>"

text \<open>
  The branch \<^verbatim>\<open>if event:\<close> of \<^verbatim>\<open>action_select\<close>: what it appends to the messages and
  to the hints, and the state it leaves. \<open>fragment_message\<close> is the result of the
  trigger check made before.
\<close>

definition event_branch ::
  "Event \<Rightarrow> Message option \<Rightarrow> GameState \<Rightarrow> Message list \<times> string list \<times> GameState" where
  "event_branch event fragment_message s =
     (let s1 = s\<lparr>current_context := (current_context s)\<lparr>event_id := ev_event_id event\<rparr>\<rparr>;
          s2 = (case ev_event_id event of
                  None \<Rightarrow> s1
                | Some eid \<Rightarrow>
                    if eid \<noteq> [] then s1\<lparr>event_history := event_history s1 @ [eid]\<rparr> else s1);
          ui_hints = concat (map (\<lambda>choice. get_or (cp_options choice) [])
                               (get_or (ev_choice_points event) []));
          s3 = (if fragment_message = None
                then s2\<lparr>fragment_candidates_today := fragment_candidates_today s2
                          @ map hook_candidate (get_or (ev_fragment_hooks event) [])\<rparr>
                else s2)
      in ([\<lparr>role = ''narrator'', content = get_or (ev_intro event) [],
            msg_kind = ''event_intro'', options = []\<rparr>,
           \<lparr>role = ''narrator'', content = get_or (ev_outro event) [],
            msg_kind = ''event_outro'', options = []\<rparr>],
          ui_hints, s3))"

definition warning_message :: "string \<Rightarrow> Message" where
  "warning_message text = \<lparr>role = ''system'', content = text, msg_kind = ''warning'', options = []\<rparr>"

definition action_select ::
  "sha_head \<Rightarrow> ContentBundle \<Rightarrow> string \<Rightarrow> string \<Rightarrow> string \<Rightarrow> GameState
     \<Rightarrow> (py_error + Message list \<times> string list) \<times> GameState" where
  "action_select sha ct loc slot stage s =
     (if ap (resources s) \<le> 0 then (Inr ([warning_message txt_no_ap], []), s)
      else
        let s1 = s\<lparr>resources := (resources s)\<lparr>ap := ap (resources s) - 1\<rparr>,
                   current_context := \<lparr>event_id = None, location = Some loc,
                                        time_slot = Some slot, stage_id = Some stage\<rparr>\<rparr>
        in (case fragment_trigger_check sha loc stage s1 of
              (Inl e, s2) \<Rightarrow> (Inl e, s2)
            | (Inr fragment_message, s2) \<Rightarrow>
                let messages0 = (case fragment_message of None \<Rightarrow> [] | Some m \<Rightarrow> [m]);
                    (messages1, ui_hints, s3) =
                      (case select_event sha ct loc slot s2 of
                         Some event \<Rightarrow> event_branch event fragment_message s2
                       | None \<Rightarrow>
                           ([\<lparr>role = ''narrator'', content = txt_event_fallback,
                              msg_kind = ''event_fallback'', options = []\<rparr>], [], s2));
                    (proactive_messages, s4) = proactive_check sha ct stage s3
                in (Inr (messages0 @ messages1 @ proactive_messages, ui_hints), s4)))"

text \<open>The argument \<^verbatim>\<open>text\<close> of \<^verbatim>\<open>chat\<close> is never read.\<close>

definition chat ::
  "sha_head \<Rightarrow> string \<Rightarrow> ContentBundle \<Rightarrow> string \<Rightarrow> GameState \<Rightarrow> Message list \<times> GameState" where
  "chat sha text ct stage s =
     (if chat_turns (resources s) \<le> 0 then ([warning_message txt_chat_enough], s)
      else
        let s1 = s\<lparr>resources := (resources s)\<lparr>chat_turns := chat_turns (resources s) - 1\<rparr>,
                   fragment_candidates_today := fragment_candidates_today s @
                     [\<lparr>cand_anchor = txt_chat_anchor, cand_emotion_tag = ''curious'',
                       score = 3 / 10, cand_reveal_level = 1,
                       trigger_hint = [(''kind'', ''location''),
                                       (''value'', get_or (location (current_context s)) [])]\<rparr>]\<rparr>;
            (proactive_messages, s2) = proactive_check sha ct stage s1
        in (\<lparr>role = ''npc'', content = txt_chat_reply, msg_kind = ''chat'', options = []\<rparr>
              # proactive_messages, s2))"

section \<open>The session lifecycle controller\<close>

definition pick_fragment :: "GameState \<Rightarrow> ConfigBundle \<Rightarrow> Fragment option" where
  "pick_fragment s config =
     (case fragment_candidates_today s of
        [] \<Rightarrow> None
      | c # cs \<Rightarrow>
          let best = max_by_from score c cs;
              hint = (if trigger_hint best \<noteq> [] then trigger_hint best
                      else [(''kind'', ''location''),
                            (''value'', get_or (location (current_context s)) [])]);
              fid = ''fragment_'' @ str_int (run_index s) @ ''_'' @ str_int (day_index s)
                      @ ''_'' @ str_int (int (length (fragments_active s)) + 1);
              pity_defaults = get_or (cfg_pity config) Map.empty
          in Some \<lparr>fragment_id = fid, version = 1, day_created = day_index s,
                   run_created = run_index s, anchor = cand_anchor best,
                   emotion_tag = cand_emotion_tag best, salience_score = score best,
                   reveal_level = cand_reveal_level best,
                   trigger = \<lparr>trigger_kind = get_or (map_of hint ''kind'') ''location'',
                              trigger_value = get_or (map_of hint ''value'') [],
                              trigger_meta = []\<rparr>,
                   trigger_state = \<lparr>exposures = 0,
                                    p0 = get_or (pity_defaults ''p0'') (2 / 10),
                                    dp = get_or (pity_defaults ''dp'') (15 / 100),
                                    p_max = get_or (pity_defaults ''p_max'') (85 / 100),
                                    last_check_day = None, last_check_stage = None,
                                    cooldown_until_day = 0\<rparr>,
                   one_shot = True, consumed = False, reward = [], meta = []\<rparr>)"

definition ending_scenes :: "ContentBundle \<Rightarrow> string list" where
  "ending_scenes ct =
     (let ending = (case endings ct of [] \<Rightarrow> \<lparr>scenes = Some [txt_default_scene]\<rparr> | e # _ \<Rightarrow> e)
      in get_or (scenes ending) [])"

definition final_ending :: "GameState \<Rightarrow> ContentBundle \<Rightarrow> Message list" where
  "final_ending s ct =
     map (\<lambda>scene. \<lparr>role = ''narrator'', content = scene, msg_kind = ''final_ending'', options = []\<rparr>)
       (ending_scenes ct)"

definition run_end_message :: "int \<Rightarrow> Message" where
  "run_end_message r = \<lparr>role = ''system'', content = txt_run_end r, msg_kind = ''run_end'', options = []\<rparr>"

definition run_end :: "sha_head \<Rightarrow> ContentBundle \<Rightarrow> GameState \<Rightarrow> Message list \<times> GameState" where
  "run_end sha ct s =
     (let messages = [run_end_message (run_index s)];
          s1 = (case fragments_active s of
                  [] \<Rightarrow> s
                | f # fs \<Rightarrow> s\<lparr>deep_fragments := [max_by_from salience_score f fs]\<rparr>);
          s2 = s1\<lparr>fragments_active := []\<rparr>
      in if run_index s2 \<ge> max_runs s2 then
           let s3 = s2\<lparr>game_phase := FINAL_END\<rparr>
           in (messages @ final_ending s3 ct, s3\<lparr>game_phase := ENDED\<rparr>)
         else
           (messages,
            s2\<lparr>run_index := run_index s2 + 1, day_index := 1, game_phase := RUNNING,
               run_seed := stable_seed sha
                 [PStr (session_id s2), PStr ''run_seed'', PInt (run_index s2 + 1)],
               event_history := []\<rparr>))"

definition days_per_run :: "ConfigBundle \<Rightarrow> int" where
  "days_per_run config = get_or (cfg_run config ''days_per_run'') 7"

definition day_end :: "sha_head \<Rightarrow> ConfigBundle \<Rightarrow> ContentBundle \<Rightarrow> GameState \<Rightarrow> Message list \<times> GameState" where
  "day_end sha config ct s =
     (let (messages, s1) =
            (case pick_fragment s config of
               Some fragment \<Rightarrow>
                 ([\<lparr>role = ''system'', content = txt_fragment_gain,
                    msg_kind = ''fragment_gain'', options = []\<rparr>],
                  s\<lparr>fragments_active := fragments_active s @ [fragment]\<rparr>)
             | None \<Rightarrow> ([], s));
          s2 = s1\<lparr>fragment_candidates_today := [], current_context := new_CurrentContext,
                  day_index := day_index s1 + 1\<rparr>
      in if day_index s2 > days_per_run config then
           let (more, s3) = run_end sha ct (s2\<lparr>game_phase := RUN_END\<rparr>)
           in (messages @ more, s3)
         else (messages, s2))"

text \<open>The first argument is the trace identifier that \<^verbatim>\<open>uuid.uuid4()\<close> returns.\<close>

definition build_response :: "string \<Rightarrow> GameState \<Rightarrow> Message list \<Rightarrow> string list \<Rightarrow> ApiResponse" where
  "build_response tid s messages ui_hints =
     (if pending_npc_messages s \<noteq> [] then
        \<lparr>resp_state = s\<lparr>pending_npc_messages := []\<rparr>,
         resp_messages = messages @ pending_npc_messages s,
         resp_ui_hints = ui_hints, trace_id = tid\<rparr>
      else \<lparr>resp_state = s, resp_messages = messages, resp_ui_hints = ui_hints, trace_id = tid\<rparr>)"

section \<open>Sessions: sequences of calls\<close>

text \<open>
  The calls the boundary layer makes on one session. A call that raises leaves the
  state as mutated so far, and the session goes on from there.
\<close>

datatype call =
    DayStart
  | ActionSelect string string string
  | Chat string string
  | DayEnd
  | BuildResponse

fun step :: "sha_head \<Rightarrow> ConfigBundle \<Rightarrow> ContentBundle \<Rightarrow> call \<Rightarrow> GameState \<Rightarrow> GameState" where
  "step sha config ct DayStart s = snd (day_start config s)"
| "step sha config ct (ActionSelect loc slot stage) s = snd (action_select sha ct loc slot stage s)"
| "step sha config ct (Chat text stage) s = snd (chat sha text ct stage s)"
| "step sha config ct DayEnd s = snd (day_end sha config ct s)"
| "step sha config ct BuildResponse s = resp_state (build_response [] s [] [])"

fun run_calls :: "sha_head \<Rightarrow> ConfigBundle \<Rightarrow> ContentBundle \<Rightarrow> call list \<Rightarrow> GameState \<Rightarrow> GameState" where
  "run_calls sha config ct [] s = s"
| "run_calls sha config ct (c # cs) s = run_calls sha config ct cs (step sha config ct c s)"

section \<open>Notions used to state the properties\<close>

subsection \<open>Weighted selection\<close>




subsection \<open>Concrete inputs\<close>





subsection \<open>Configuration keys and the end of a day\<close>



text \<open>
  What \<^verbatim>\<open>day_end\<close> has done when it reaches its test of the day counter: the message
  for a promoted candidate, and the state with the phase already set to \<^verbatim>\<open>RUN_END\<close>, as
  \<^verbatim>\<open>run_end\<close> receives it.
\<close>

definition gain_messages :: "GameState \<Rightarrow> ConfigBundle \<Rightarrow> Message list" where
  "gain_messages s config =
     (case pick_fragment s config of
        None \<Rightarrow> []
      | Some _ \<Rightarrow> [\<lparr>role = ''system'', content = txt_fragment_gain,
                     msg_kind = ''fragment_gain'', options = []\<rparr>])"

definition before_run_end :: "GameState \<Rightarrow> ConfigBundle \<Rightarrow> GameState" where
  "before_run_end s config =
     s\<lparr>fragments_active := (case pick_fragment s config of
                               None \<Rightarrow> fragments_active s
                             | Some fragment \<Rightarrow> fragments_active s @ [fragment]),
       fragment_candidates_today := [], current_context := new_CurrentContext,
       day_index := day_index s + 1, game_phase := RUN_END\<rparr>"


subsection \<open>A concrete session\<close>

text \<open>
  A digest that is constantly zero, a configuration with every key, an empty one, a
  catalog with one ending of two scenes, and the state the configuration creates.
\<close>

definition zero_sha :: sha_head where
  "zero_sha = (\<lambda>_. 0)"

definition demo_config :: "int \<Rightarrow> int \<Rightarrow> ConfigBundle" where
  "demo_config d r =
     \<lparr>cfg_run = [''days_per_run'' \<mapsto> d, ''max_runs'' \<mapsto> r],
      cfg_resources = [''ap'' \<mapsto> 3, ''chat_turns'' \<mapsto> 2, ''key_q'' \<mapsto> 1, ''npc_initiative'' \<mapsto> 1],
      cfg_caps = [''daily_fragment_cap'' \<mapsto> 2, ''daily_proactive_cap'' \<mapsto> 1],
      cfg_pity = None\<rparr>"


definition demo_content :: ContentBundle where
  "demo_content = \<lparr>events = [], hooks = [],
     endings = [\<lparr>scenes = Some [''first scene'', ''second scene'']\<rparr>]\<rparr>"

definition demo_state :: "int \<Rightarrow> GameState" where
  "demo_state r =
     new_GameState ''session'' \<lparr>ap = 3, chat_turns = 2, key_q = 1, npc_initiative = 1\<rparr>
       \<lparr>daily_fragment_cap = 2, daily_proactive_cap = 1\<rparr> r 0"

definition three_actions :: "call list" where
  "three_actions = [ActionSelect ''market'' ''morning'' ''event_flow'',
                    ActionSelect ''market'' ''morning'' ''event_flow'',
                    ActionSelect ''market'' ''morning'' ''event_flow'']"

definition demo_fragment :: "string \<Rightarrow> real \<Rightarrow> int \<Rightarrow> Fragment" where
  "demo_fragment fid sal n =
     \<lparr>fragment_id = fid, version = 1, day_created = 1, run_created = 1, anchor = ''bell'',
      emotion_tag = ''curious'', salience_score = sal, reveal_level = 1,
      trigger = \<lparr>trigger_kind = ''location'', trigger_value = ''market'', trigger_meta = []\<rparr>,
      trigger_state = \<lparr>exposures = n, p0 = 2 / 10, dp = 15 / 100, p_max = 85 / 100,
                       last_check_day = None, last_check_stage = None, cooldown_until_day = 0\<rparr>,
      one_shot = True, consumed = False, reward = [], meta = []\<rparr>"





subsection \<open>Daily counters and proactive attempts\<close>

definition counters_within_caps :: "GameState \<Rightarrow> bool" where
  "counters_within_caps s \<longleftrightarrow>
     daily_fragment_count s \<le> daily_fragment_cap (caps s)
     \<and> daily_proactive_count s \<le> daily_proactive_cap (caps s)"

definition caps_nonnegative :: "GameState \<Rightarrow> bool" where
  "caps_nonnegative s \<longleftrightarrow> 0 \<le> daily_fragment_cap (caps s) \<and> 0 \<le> daily_proactive_cap (caps s)"

definition session_invariant :: "GameState \<Rightarrow> bool" where
  "session_invariant s \<longleftrightarrow> caps_nonnegative s \<and> counters_within_caps s"

text \<open>
  The hook on which \<^verbatim>\<open>proactive_check\<close> performs its pity roll: \<open>None\<close> when a guard
  returns before the roll, otherwise the hook that \<^verbatim>\<open>select_hook\<close> picks.
\<close>

definition proactive_attempt :: "sha_head \<Rightarrow> ContentBundle \<Rightarrow> string \<Rightarrow> GameState \<Rightarrow> Hook option" where
  "proactive_attempt sha ct stage s =
     (if daily_proactive_count s \<ge> daily_proactive_cap (caps s) then None
      else if npc_initiative (resources s) \<le> 0 then None
      else if filter (hook_eligible s) (hooks ct) = [] then None
      else select_hook sha (filter (hook_eligible s) (hooks ct)) s stage)"

subsection \<open>A concrete hook catalog\<close>


definition demo_hook :: Hook where
  "demo_hook =
     \<lparr>hook_id = Some ''greet'', hook_conditions = None, hook_base_weight = None,
      hook_p0 = None, hook_dp = None, hook_p_max = None, hook_cooldown_days = Some 2,
      hook_payload_template = Some \<lparr>pl_text = Some ''Good morning.'', pl_options = None\<rparr>,
      hook_kind = None\<rparr>"

definition hook_content :: ContentBundle where
  "hook_content = \<lparr>events = [], hooks = [demo_hook], endings = []\<rparr>"

definition two_chats :: "call list" where
  "two_chats = [Chat ''hello'' ''chat'', Chat ''again'' ''chat'']"

subsection \<open>The fragment that a trigger check selects\<close>

text \<open>
  The position in \<^verbatim>\<open>fragments_active\<close> of the fragment that \<^verbatim>\<open>fragment_trigger_check\<close>
  selects: \<open>None\<close> when the cap is reached or no fragment is eligible. The test on the
  last check is made on the selected fragment only.
\<close>

definition selected_position :: "GameState \<Rightarrow> string \<Rightarrow> nat option" where
  "selected_position s loc =
     (if daily_fragment_count s \<ge> daily_fragment_cap (caps s) then None
      else case eligible_positions s loc of
        [] \<Rightarrow> None
      | i0 # rest \<Rightarrow> Some (max_by_from (\<lambda>j. fragment_key (fragments_active s ! j)) i0 rest))"

definition already_checked :: "GameState \<Rightarrow> string \<Rightarrow> nat \<Rightarrow> bool" where
  "already_checked s stage i \<longleftrightarrow>
     last_check_day (trigger_state (fragments_active s ! i)) = Some (day_index s)
     \<and> last_check_stage (trigger_state (fragments_active s ! i)) = Some stage"

text \<open>The fragment at the selected position after a roll.\<close>

definition rolled_fragment :: "sha_head \<Rightarrow> GameState \<Rightarrow> string \<Rightarrow> Fragment \<Rightarrow> Fragment" where
  "rolled_fragment sha s stage fragment =
     (let ts1 = (trigger_state fragment)
                  \<lparr>last_check_day := Some (day_index s), last_check_stage := Some stage\<rparr>
      in if success (fragment_roll sha s stage fragment)
         then fragment\<lparr>trigger_state := ts1\<lparr>exposures := 0\<rparr>, consumed := one_shot fragment\<rparr>
         else fragment\<lparr>trigger_state := ts1\<lparr>exposures := exposures (trigger_state fragment) + 1\<rparr>\<rparr>)"

text \<open>The states of a session after each call of a sequence.\<close>

fun states_after ::
  "sha_head \<Rightarrow> ConfigBundle \<Rightarrow> ContentBundle \<Rightarrow> call list \<Rightarrow> GameState \<Rightarrow> GameState list" where
  "states_after sha config ct [] s = []"
| "states_after sha config ct (c # cs) s =
     step sha config ct c s # states_after sha config ct cs (step sha config ct c s)"

text \<open>
  The later state has kept each position of the active list and holds, at the position
  of each consumed fragment, that fragment as it was.
\<close>

definition keeps_consumed :: "GameState \<Rightarrow> GameState \<Rightarrow> bool" where
  "keeps_consumed s t \<longleftrightarrow>
     length (fragments_active s) \<le> length (fragments_active t)
     \<and> (\<forall>i<length (fragments_active s). consumed (fragments_active s ! i) \<longrightarrow>
           fragments_active t ! i = fragments_active s ! i)"

subsection \<open>Concrete fragments\<close>


definition consumed_fragment :: "string \<Rightarrow> real \<Rightarrow> int \<Rightarrow> Fragment" where
  "consumed_fragment fid sal n = (demo_fragment fid sal n)\<lparr>consumed := True\<rparr>"


definition consumed_state :: GameState where
  "consumed_state =
     (demo_state 3)\<lparr>fragments_active :=
        [consumed_fragment ''f1'' (9 / 10) 0, demo_fragment ''f2'' (3 / 10) 0]\<rparr>"

definition market_visit :: "call list" where
  "market_visit = [ActionSelect ''market'' ''morning'' ''event_flow'', DayEnd,
                   ActionSelect ''market'' ''evening'' ''event_flow'']"

subsection \<open>States at the edge of a transition\<close>

definition spent_state :: GameState where
  "spent_state = (demo_state 1)\<lparr>resources := \<lparr>ap = 0, chat_turns = 0, key_q = 1, npc_initiative = 1\<rparr>\<rparr>"


section \<open>Verified properties\<close>

subsection \<open>The pity roll\<close>




subsection \<open>Weighted selection\<close>









subsection \<open>The concrete session is the one the configuration creates\<close>

lemma demo_created: "create_initial_state zero_sha ''session'' (demo_config d r) = Inr (demo_state r)"
  by (simp add: create_initial_state_def demo_config_def demo_state_def new_Resources_def new_Caps_def
      get_or_def stable_seed_def zero_sha_def)

subsection \<open>Exhausted resources\<close>

text \<open>
  Claim C7. In a state whose \<^verbatim>\<open>ap\<close> is 0, \<^verbatim>\<open>action_select\<close> returns one message of kind
  \<^verbatim>\<open>warning\<close>, no hints, and the state it was given, every field as it was. In a state
  whose \<^verbatim>\<open>chat_turns\<close> is 0, \<^verbatim>\<open>chat\<close> does the same.
\<close>

theorem exhausted_actions_leave_state:
  "(ap (resources s) = 0 \<longrightarrow>
      action_select sha ct loc slot stage s = (Inr ([warning_message txt_no_ap], []), s))
   \<and> (chat_turns (resources s) = 0 \<longrightarrow>
      chat sha text ct stage s = ([warning_message txt_chat_enough], s))
   \<and> msg_kind (warning_message txt_no_ap) = ''warning''
   \<and> msg_kind (warning_message txt_chat_enough) = ''warning''"
  by (simp add: action_select_def chat_def warning_message_def)

lemma proactive_check_no_hooks: "hooks ct = [] \<Longrightarrow> proactive_check sha ct stage s = ([], s)"
  by (simp add: proactive_check_def)

lemma trigger_check_no_fragments:
  "fragments_active s = [] \<Longrightarrow> fragment_trigger_check sha loc stage s = (Inr None, s)"
  by (simp add: fragment_trigger_check_def eligible_positions_def)

lemma select_event_no_events: "events ct = [] \<Longrightarrow> select_event sha ct loc slot s = None"
  by (simp add: select_event_def select_weighted_def)

lemma action_select_quiet:
  assumes "0 < ap (resources s)" "fragments_active s = []" "events ct = []" "hooks ct = []"
  shows "snd (action_select sha ct loc slot stage s) =
     s\<lparr>resources := (resources s)\<lparr>ap := ap (resources s) - 1\<rparr>,
       current_context := \<lparr>event_id = None, location = Some loc,
                            time_slot = Some slot, stage_id = Some stage\<rparr>\<rparr>"
  using assms
  by (simp add: action_select_def trigger_check_no_fragments select_event_no_events
      proactive_check_no_hooks)

lemma after_three_actions:
  "ap (resources (run_calls zero_sha (demo_config 7 1) demo_content three_actions (demo_state 1))) = 0"
  by (simp add: three_actions_def action_select_quiet demo_state_def new_GameState_def demo_content_def)

text \<open>
  Scenario A of the specification: three actions at a place without events bring
  \<^verbatim>\<open>ap\<close> from 3 to 0, and the fourth call only warns.
\<close>

theorem exhausted_actions_leave_state_witness:
  "ap (resources (run_calls zero_sha (demo_config 7 1) demo_content three_actions (demo_state 1))) = 0
   \<and> action_select zero_sha demo_content ''market'' ''morning'' ''event_flow''
        (run_calls zero_sha (demo_config 7 1) demo_content three_actions (demo_state 1))
      = (Inr ([warning_message txt_no_ap], []),
         run_calls zero_sha (demo_config 7 1) demo_content three_actions (demo_state 1))
   \<and> chat_turns (resources spent_state) = 0
   \<and> chat zero_sha ''hello'' demo_content ''chat'' spent_state
      = ([warning_message txt_chat_enough], spent_state)"
proof -
  have c: "chat_turns (resources spent_state) = 0" by (simp add: spent_state_def)
  from exhausted_actions_leave_state [of "run_calls zero_sha (demo_config 7 1) demo_content three_actions (demo_state 1)"
      zero_sha demo_content "''market''" "''morning''" "''event_flow''"]
    after_three_actions
  have a: "action_select zero_sha demo_content ''market'' ''morning'' ''event_flow''
        (run_calls zero_sha (demo_config 7 1) demo_content three_actions (demo_state 1))
      = (Inr ([warning_message txt_no_ap], []),
         run_calls zero_sha (demo_config 7 1) demo_content three_actions (demo_state 1))"
    by blast
  from exhausted_actions_leave_state [of spent_state zero_sha demo_content _ _ "''chat''" "''hello''"] c
  have "chat zero_sha ''hello'' demo_content ''chat'' spent_state
      = ([warning_message txt_chat_enough], spent_state)"
    by blast
  with after_three_actions a c show ?thesis by (intro conjI)
qed

subsection \<open>Configuration\<close>








subsection \<open>The end of a run\<close>

lemma max_by_from_first_aux:
  "(\<forall>y\<in>set (b # xs). f y \<le> f (max_by_from f b xs))
   \<and> (max_by_from f b xs = b
       \<or> (\<exists>k<length xs. max_by_from f b xs = xs ! k \<and> f b < f (xs ! k)
             \<and> (\<forall>j<k. f (xs ! j) < f (xs ! k))))"
proof (induction xs arbitrary: b)
  case Nil
  show ?case by simp
next
  case (Cons x xs)
  let ?r = "max_by_from f (if f x > f b then x else b) xs"
  note IH = Cons.IH [of "if f x > f b then x else b"]
  show ?case
  proof (cases "f x > f b")
    case True
    then have r: "max_by_from f b (x # xs) = max_by_from f x xs" by simp
    from IH True have mx: "\<forall>y\<in>set (x # xs). f y \<le> f (max_by_from f x xs)" by simp
    from IH True consider "max_by_from f x xs = x"
      | k where "k < length xs" "max_by_from f x xs = xs ! k" "f x < f (xs ! k)"
          "\<forall>j<k. f (xs ! j) < f (xs ! k)" by auto
    then have "\<exists>k<length (x # xs). max_by_from f x xs = (x # xs) ! k \<and> f b < f ((x # xs) ! k)
             \<and> (\<forall>j<k. f ((x # xs) ! j) < f ((x # xs) ! k))"
    proof cases
      case 1
      then have "max_by_from f x xs = (x # xs) ! 0 \<and> f b < f ((x # xs) ! 0)
             \<and> (\<forall>j<0. f ((x # xs) ! j) < f ((x # xs) ! 0))" using True by simp
      then show ?thesis by blast
    next
      case 2
      have "\<forall>j<Suc k. f ((x # xs) ! j) < f ((x # xs) ! Suc k)"
      proof (intro allI impI)
        fix j assume "j < Suc k"
        then show "f ((x # xs) ! j) < f ((x # xs) ! Suc k)"
          using 2(3,4) by (cases j) simp_all
      qed
      moreover have "f b < f ((x # xs) ! Suc k)" using True 2(3) by simp
      moreover have "Suc k < length (x # xs)" "max_by_from f x xs = (x # xs) ! Suc k"
        using 2(1,2) by simp_all
      ultimately show ?thesis by blast
    qed
    moreover have "\<forall>y\<in>set (b # x # xs). f y \<le> f (max_by_from f x xs)"
      using mx True by auto
    ultimately show ?thesis unfolding r by blast
  next
    case False
    then have r: "max_by_from f b (x # xs) = max_by_from f b xs" by simp
    from IH False have mx: "\<forall>y\<in>set (b # xs). f y \<le> f (max_by_from f b xs)" by simp
    then have mx': "\<forall>y\<in>set (b # x # xs). f y \<le> f (max_by_from f b xs)"
      using False by auto
    from IH False consider "max_by_from f b xs = b"
      | k where "k < length xs" "max_by_from f b xs = xs ! k" "f b < f (xs ! k)"
          "\<forall>j<k. f (xs ! j) < f (xs ! k)" by auto
    then have "max_by_from f b xs = b
       \<or> (\<exists>k<length (x # xs). max_by_from f b xs = (x # xs) ! k \<and> f b < f ((x # xs) ! k)
             \<and> (\<forall>j<k. f ((x # xs) ! j) < f ((x # xs) ! k)))"
    proof cases
      case 1
      then show ?thesis by simp
    next
      case 2
      have "\<forall>j<Suc k. f ((x # xs) ! j) < f ((x # xs) ! Suc k)"
      proof (intro allI impI)
        fix j assume "j < Suc k"
        then show "f ((x # xs) ! j) < f ((x # xs) ! Suc k)"
          using 2(3,4) False by (cases j) simp_all
      qed
      moreover have "f b < f ((x # xs) ! Suc k)" using 2(3) by simp
      moreover have "Suc k < length (x # xs)" "max_by_from f b xs = (x # xs) ! Suc k"
        using 2(1,2) by simp_all
      ultimately show ?thesis by blast
    qed
    with mx' show ?thesis unfolding r by blast
  qed
qed

text \<open>The result of \<^verbatim>\<open>max\<close> is the first element of the list with the greatest key.\<close>

lemma max_by_from_first:
  "\<exists>k<length (b # xs). max_by_from f b xs = (b # xs) ! k
     \<and> (\<forall>y\<in>set (b # xs). f y \<le> f ((b # xs) ! k))
     \<and> (\<forall>j<k. f ((b # xs) ! j) < f ((b # xs) ! k))"
proof -
  from max_by_from_first_aux [of b xs f]
  have mx: "\<forall>y\<in>set (b # xs). f y \<le> f (max_by_from f b xs)" by blast
  from max_by_from_first_aux [of b xs f] consider "max_by_from f b xs = b"
    | k where "k < length xs" "max_by_from f b xs = xs ! k" "f b < f (xs ! k)"
        "\<forall>j<k. f (xs ! j) < f (xs ! k)" by blast
  then show ?thesis
  proof cases
    case 1
    with mx have "0 < length (b # xs) \<and> max_by_from f b xs = (b # xs) ! 0
      \<and> (\<forall>y\<in>set (b # xs). f y \<le> f ((b # xs) ! 0))
      \<and> (\<forall>j<0. f ((b # xs) ! j) < f ((b # xs) ! 0))" by simp
    then show ?thesis by blast
  next
    case 2
    have "\<forall>j<Suc k. f ((b # xs) ! j) < f ((b # xs) ! Suc k)"
    proof (intro allI impI)
      fix j assume "j < Suc k"
      then show "f ((b # xs) ! j) < f ((b # xs) ! Suc k)"
        using 2(3,4) by (cases j) simp_all
    qed
    moreover have "Suc k < length (b # xs)" "max_by_from f b xs = (b # xs) ! Suc k"
      using 2(1,2) by simp_all
    moreover have "\<forall>y\<in>set (b # xs). f y \<le> f ((b # xs) ! Suc k)"
      using mx 2(2) by simp
    ultimately show ?thesis by blast
  qed
qed

lemma run_end_deep:
  "fragments_active s = f # fs \<Longrightarrow>
     deep_fragments (snd (run_end sha ct s)) = [max_by_from salience_score f fs]"
  "fragments_active s = [] \<Longrightarrow> deep_fragments (snd (run_end sha ct s)) = deep_fragments s"
  "fragments_active (snd (run_end sha ct s)) = []"
  by (simp_all add: run_end_def Let_def)





subsection \<open>The transition at the end of a day\<close>

lemma day_end_past_last_day:
  assumes "day_index s + 1 > days_per_run config"
  shows "day_end sha config ct s =
     (gain_messages s config @ fst (run_end sha ct (before_run_end s config)),
      snd (run_end sha ct (before_run_end s config)))"
  using assms
  by (auto simp: day_end_def gain_messages_def before_run_end_def Let_def
      split: option.splits prod.splits)









subsection \<open>Daily counters stay within their caps\<close>

lemmas session_invariant_defs = session_invariant_def caps_nonnegative_def counters_within_caps_def

lemma trigger_check_invariant:
  "session_invariant s \<Longrightarrow> session_invariant (snd (fragment_trigger_check sha loc stage s))"
  by (auto simp: fragment_trigger_check_def session_invariant_defs Let_def
      split: list.splits sum.splits)

lemma proactive_check_invariant:
  "session_invariant s \<Longrightarrow> session_invariant (snd (proactive_check sha ct stage s))"
  by (auto simp: proactive_check_def session_invariant_defs Let_def split: option.splits)

lemma event_branch_invariant:
  "session_invariant s \<Longrightarrow> session_invariant (snd (snd (event_branch event m s)))"
  by (auto simp: event_branch_def session_invariant_defs Let_def split: option.splits)

lemma action_select_invariant:
  assumes "session_invariant s"
  shows "session_invariant (snd (action_select sha ct loc slot stage s))"
proof (cases "ap (resources s) \<le> 0")
  case True
  then show ?thesis using assms by (simp add: action_select_def)
next
  case False
  let ?s1 = "s\<lparr>resources := (resources s)\<lparr>ap := ap (resources s) - 1\<rparr>,
               current_context := \<lparr>event_id = None, location = Some loc,
                                    time_slot = Some slot, stage_id = Some stage\<rparr>\<rparr>"
  have i1: "session_invariant ?s1" using assms by (simp add: session_invariant_defs)
  obtain r s2 where f: "fragment_trigger_check sha loc stage ?s1 = (r, s2)" by fastforce
  have i2: "session_invariant s2" using trigger_check_invariant [OF i1, of sha loc stage] f by simp
  show ?thesis
  proof (cases r)
    case (Inl e)
    then show ?thesis using False f i2 by (simp add: action_select_def)
  next
    case (Inr m)
    show ?thesis
    proof (cases "select_event sha ct loc slot s2")
      case None
      then show ?thesis
        using False f Inr proactive_check_invariant [OF i2, of sha ct stage]
        by (simp add: action_select_def split_beta Let_def)
    next
      case (Some event)
      obtain ms hs s3 where e: "event_branch event m s2 = (ms, hs, s3)"
        by (metis prod_cases3)
      have i3: "session_invariant s3" using event_branch_invariant [OF i2, of event m] e by simp
      show ?thesis
        using False f Inr Some e proactive_check_invariant [OF i3, of sha ct stage]
        by (simp add: action_select_def split_beta Let_def)
    qed
  qed
qed

lemma chat_invariant:
  assumes "session_invariant s"
  shows "session_invariant (snd (chat sha text ct stage s))"
proof (cases "chat_turns (resources s) \<le> 0")
  case True
  then show ?thesis using assms by (simp add: chat_def)
next
  case False
  let ?s1 = "s\<lparr>resources := (resources s)\<lparr>chat_turns := chat_turns (resources s) - 1\<rparr>,
               fragment_candidates_today := fragment_candidates_today s @
                 [\<lparr>cand_anchor = txt_chat_anchor, cand_emotion_tag = ''curious'',
                   score = 3 / 10, cand_reveal_level = 1,
                   trigger_hint = [(''kind'', ''location''),
                                   (''value'', get_or (location (current_context s)) [])]\<rparr>]\<rparr>"
  have "session_invariant ?s1" using assms by (simp add: session_invariant_defs)
  from proactive_check_invariant [OF this, of sha ct stage] False
  show ?thesis by (simp add: chat_def split_beta Let_def)
qed

lemma run_end_invariant:
  "session_invariant s \<Longrightarrow> session_invariant (snd (run_end sha ct s))"
  by (auto simp: run_end_def session_invariant_defs Let_def split: list.splits)

lemma day_end_invariant:
  assumes "session_invariant s"
  shows "session_invariant (snd (day_end sha config ct s))"
proof -
  let ?s1 = "case pick_fragment s config of
               Some fragment \<Rightarrow> s\<lparr>fragments_active := fragments_active s @ [fragment]\<rparr>
             | None \<Rightarrow> s"
  let ?s2 = "?s1\<lparr>fragment_candidates_today := [], current_context := new_CurrentContext,
                  day_index := day_index ?s1 + 1\<rparr>"
  have i2: "session_invariant ?s2"
    using assms by (simp add: session_invariant_defs split: option.splits)
  then have i3: "session_invariant (?s2\<lparr>game_phase := RUN_END\<rparr>)"
    by (simp add: session_invariant_defs)
  have "snd (day_end sha config ct s) =
          (if day_index ?s2 > days_per_run config
           then snd (run_end sha ct (?s2\<lparr>game_phase := RUN_END\<rparr>)) else ?s2)"
    by (simp add: day_end_def Let_def split_beta split: option.splits)
  with i2 run_end_invariant [OF i3, of sha ct] show ?thesis by presburger
qed

lemma day_start_invariant:
  "session_invariant s \<Longrightarrow> session_invariant (snd (day_start config s))"
  by (auto simp: day_start_def session_invariant_defs split: sum.splits)

lemma build_response_invariant:
  "session_invariant s \<Longrightarrow> session_invariant (resp_state (build_response tid s ms hs))"
  by (auto simp: build_response_def session_invariant_defs)

lemma step_invariant:
  "session_invariant s \<Longrightarrow> session_invariant (step sha config ct c s)"
  by (cases c)
    (simp_all add: day_start_invariant action_select_invariant chat_invariant day_end_invariant
      build_response_invariant)

lemma run_calls_invariant:
  "session_invariant s \<Longrightarrow> session_invariant (run_calls sha config ct calls s)"
  by (induction calls arbitrary: s) (simp_all add: step_invariant)

lemma fresh_counters:
  "create_initial_state sha sid config = Inr s0 \<Longrightarrow>
     daily_fragment_count s0 = 0 \<and> daily_proactive_count s0 = 0"
  by (auto simp: create_initial_state_def new_GameState_def split: sum.splits)

text \<open>
  Claim C3. From a fresh initial state with non-negative caps, after any sequence of
  \<^verbatim>\<open>day_start\<close>, \<^verbatim>\<open>action_select\<close>, \<^verbatim>\<open>chat\<close> and \<^verbatim>\<open>day_end\<close> calls (and of response
  building between them), \<^verbatim>\<open>daily_fragment_count\<close> is at most \<^verbatim>\<open>daily_fragment_cap\<close> and
  \<^verbatim>\<open>daily_proactive_count\<close> at most \<^verbatim>\<open>daily_proactive_cap\<close>. A call that raises leaves
  the counters within the caps as well.
\<close>

theorem daily_counters_within_caps:
  assumes "create_initial_state sha sid config = Inr s0"
    and "0 \<le> daily_fragment_cap (caps s0)" and "0 \<le> daily_proactive_cap (caps s0)"
  shows "counters_within_caps (run_calls sha config ct calls s0)"
proof -
  have "session_invariant s0"
    using assms fresh_counters [OF assms(1)] by (simp add: session_invariant_defs)
  then have "session_invariant (run_calls sha config ct calls s0)"
    by (rule run_calls_invariant)
  then show ?thesis by (simp add: session_invariant_def)
qed

subsection \<open>Proactive hook attempts\<close>



lemma two_chats_counter:
  "daily_proactive_count (run_calls zero_sha (demo_config 7 1) hook_content two_chats (demo_state 1)) = 1"
  by (simp add: two_chats_def chat_def proactive_check_def hook_content_def demo_hook_def demo_state_def
      new_GameState_def new_CurrentContext_def hook_eligible_def hook_matches_conditions_def
      get_or_def truthy_str_def select_hook_def hook_weight_def Let_def stable_seed_def
      proactive_roll_def roll_with_pity_def zero_sha_def)

lemma proactive_attempt_SomeD:
  assumes "proactive_attempt sha ct stage s = Some hook"
  shows "\<not> daily_proactive_count s \<ge> daily_proactive_cap (caps s)"
    and "\<not> npc_initiative (resources s) \<le> 0"
    and "filter (hook_eligible s) (hooks ct) \<noteq> []"
    and "select_hook sha (filter (hook_eligible s) (hooks ct)) s stage = Some hook"
  using assms unfolding proactive_attempt_def by (simp_all split: if_splits)

lemma proactive_check_attempt:
  assumes "proactive_attempt sha ct stage s = Some hook"
  shows "proactive_check sha ct stage s =
     (let hid = get_or (hook_id hook) ''hook'';
          n = get_or (hook_exposures (proactive_state s) hid) 0;
          result = proactive_roll sha s stage hook;
          s1 = s\<lparr>trace_log := trace_log s @ [proactive_roll_entry hid result n stage]\<rparr>;
          ps = proactive_state s
      in if \<not> success result then
           ([], s1\<lparr>proactive_state := ps\<lparr>hook_exposures := (hook_exposures ps)(hid \<mapsto> n + 1)\<rparr>\<rparr>)
         else
           ([], s1\<lparr>proactive_state :=
                     ps\<lparr>hook_exposures := (hook_exposures ps)(hid \<mapsto> 0),
                        hook_cooldowns := (hook_cooldowns ps)
                          (hid \<mapsto> day_index s + get_or (hook_cooldown_days hook) 1)\<rparr>,
                   resources := (resources s)\<lparr>npc_initiative := npc_initiative (resources s) - 1\<rparr>,
                   daily_proactive_count := daily_proactive_count s + 1,
                   pending_npc_messages := pending_npc_messages s @ [proactive_message hook]\<rparr>))"
  unfolding proactive_check_def
  using proactive_attempt_SomeD [OF assms] by (simp only: if_False Let_def option.case)

lemma proactive_check_no_attempt:
  "proactive_attempt sha ct stage s = None \<Longrightarrow> proactive_check sha ct stage s = ([], s)"
  unfolding proactive_attempt_def proactive_check_def Let_def
  by (simp split: if_splits)




text \<open>
  With one hook in the catalog and every draw 0, the first chat fires the hook and the
  second finds the proactive cap of 1 reached.
\<close>

theorem daily_counters_within_caps_witness:
  "create_initial_state zero_sha ''session'' (demo_config 7 1) = Inr (demo_state 1)
   \<and> 0 \<le> daily_fragment_cap (caps (demo_state 1))
   \<and> 0 \<le> daily_proactive_cap (caps (demo_state 1))
   \<and> daily_proactive_count (run_calls zero_sha (demo_config 7 1) hook_content two_chats (demo_state 1)) = 1
   \<and> counters_within_caps (run_calls zero_sha (demo_config 7 1) hook_content two_chats (demo_state 1))"
proof -
  have c: "create_initial_state zero_sha ''session'' (demo_config 7 1) = Inr (demo_state 1)"
    by (rule demo_created)
  have f: "0 \<le> daily_fragment_cap (caps (demo_state 1))"
    and p: "0 \<le> daily_proactive_cap (caps (demo_state 1))"
    by (simp_all add: demo_state_def new_GameState_def)
  note t = daily_counters_within_caps [OF c f p, of hook_content two_chats]
  from c f p two_chats_counter t show ?thesis by (intro conjI)
qed




subsection \<open>The fragment trigger check\<close>

lemma eligible_positions_iff:
  "i \<in> set (eligible_positions s loc) \<longleftrightarrow>
     i < length (fragments_active s) \<and> fragment_eligible s loc (fragments_active s ! i)"
  by (auto simp: eligible_positions_def)

lemma selected_position_SomeD:
  assumes "selected_position s loc = Some i"
  shows "\<not> daily_fragment_count s \<ge> daily_fragment_cap (caps s)"
    and "\<exists>i0 rest. eligible_positions s loc = i0 # rest
           \<and> i = max_by_from (\<lambda>j. fragment_key (fragments_active s ! j)) i0 rest"
  using assms unfolding selected_position_def
  by (auto split: if_splits list.splits)

lemma selected_position_best:
  assumes "selected_position s loc = Some i"
  shows "i \<in> set (eligible_positions s loc)"
    and "\<forall>j\<in>set (eligible_positions s loc).
           fragment_key (fragments_active s ! j) \<le> fragment_key (fragments_active s ! i)"
proof -
  from selected_position_SomeD(2) [OF assms] obtain i0 rest where
    e: "eligible_positions s loc = i0 # rest"
    and i: "i = max_by_from (\<lambda>j. fragment_key (fragments_active s ! j)) i0 rest" by blast
  from max_by_from_first [of i0 rest "\<lambda>j. fragment_key (fragments_active s ! j)"]
  obtain k where k: "k < length (i0 # rest)" "i = (i0 # rest) ! k"
    "\<forall>y\<in>set (i0 # rest). fragment_key (fragments_active s ! y)
        \<le> fragment_key (fragments_active s ! ((i0 # rest) ! k))"
    unfolding i by blast
  from k(1,2) show "i \<in> set (eligible_positions s loc)"
    unfolding e by (metis nth_mem)
  from k(2,3) show "\<forall>j\<in>set (eligible_positions s loc).
           fragment_key (fragments_active s ! j) \<le> fragment_key (fragments_active s ! i)"
    unfolding e by simp
qed

lemma trigger_check_not_selected:
  "selected_position s loc = None \<Longrightarrow> fragment_trigger_check sha loc stage s = (Inr None, s)"
  unfolding selected_position_def fragment_trigger_check_def
  by (simp split: if_splits list.splits)

lemma trigger_check_skip:
  assumes "selected_position s loc = Some i" and "already_checked s stage i"
  shows "fragment_trigger_check sha loc stage s = (Inr None, s)"
proof -
  from selected_position_SomeD [OF assms(1)] obtain i0 rest where
    c: "\<not> daily_fragment_count s \<ge> daily_fragment_cap (caps s)"
    and e: "eligible_positions s loc = i0 # rest"
    and i: "max_by_from (\<lambda>j. fragment_key (fragments_active s ! j)) i0 rest = i" by metis
  from assms(2) show ?thesis
    unfolding fragment_trigger_check_def already_checked_def
    by (simp add: c e i Let_def)
qed

lemma trigger_check_roll:
  assumes "selected_position s loc = Some i" and "\<not> already_checked s stage i"
  shows "trace_log (snd (fragment_trigger_check sha loc stage s)) =
           trace_log s @ [fragment_roll_entry (fragments_active s ! i)
                            (fragment_roll sha s stage (fragments_active s ! i)) stage]"
    and "fragments_active (snd (fragment_trigger_check sha loc stage s)) =
           (fragments_active s)[i := rolled_fragment sha s stage (fragments_active s ! i)]"
proof -
  from selected_position_SomeD [OF assms(1)] obtain i0 rest where
    c: "\<not> daily_fragment_count s \<ge> daily_fragment_cap (caps s)"
    and e: "eligible_positions s loc = i0 # rest"
    and i: "max_by_from (\<lambda>j. fragment_key (fragments_active s ! j)) i0 rest = i" by metis
  from assms(2) have n: "\<not> (last_check_day (trigger_state (fragments_active s ! i)) = Some (day_index s)
     \<and> last_check_stage (trigger_state (fragments_active s ! i)) = Some stage)"
    by (simp add: already_checked_def)
  show "trace_log (snd (fragment_trigger_check sha loc stage s)) =
           trace_log s @ [fragment_roll_entry (fragments_active s ! i)
                            (fragment_roll sha s stage (fragments_active s ! i)) stage]"
    unfolding fragment_trigger_check_def
    using n by (auto simp add: c e i Let_def split: sum.splits)
  show "fragments_active (snd (fragment_trigger_check sha loc stage s)) =
           (fragments_active s)[i := rolled_fragment sha s stage (fragments_active s ! i)]"
    unfolding fragment_trigger_check_def rolled_fragment_def
    using n by (auto simp add: c e i Let_def split: sum.splits)
qed

lemma trigger_check_frame:
  "length (fragments_active (snd (fragment_trigger_check sha loc stage s))) = length (fragments_active s)"
  "j < length (fragments_active s) \<Longrightarrow> selected_position s loc \<noteq> Some j \<Longrightarrow>
     fragments_active (snd (fragment_trigger_check sha loc stage s)) ! j = fragments_active s ! j"
  "length (trace_log (snd (fragment_trigger_check sha loc stage s))) \<le> length (trace_log s) + 1"
proof -
  consider "selected_position s loc = None"
    | i where "selected_position s loc = Some i" "already_checked s stage i"
    | i where "selected_position s loc = Some i" "\<not> already_checked s stage i"
    by (cases "selected_position s loc") auto
  note cs = this
  show "length (fragments_active (snd (fragment_trigger_check sha loc stage s))) = length (fragments_active s)"
    using cs
    by cases (simp_all add: trigger_check_not_selected trigger_check_skip trigger_check_roll)
  show "length (trace_log (snd (fragment_trigger_check sha loc stage s))) \<le> length (trace_log s) + 1"
    using cs
    by cases (simp_all add: trigger_check_not_selected trigger_check_skip trigger_check_roll)
  show "fragments_active (snd (fragment_trigger_check sha loc stage s)) ! j = fragments_active s ! j"
    if "j < length (fragments_active s)" "selected_position s loc \<noteq> Some j"
    using cs that
    by cases (simp_all add: trigger_check_not_selected trigger_check_skip trigger_check_roll)
qed




lemma consumed_state_selected: "selected_position consumed_state ''market'' = Some 1"
  by (simp add: selected_position_def eligible_positions_def fragment_eligible_def consumed_state_def
      consumed_fragment_def demo_fragment_def demo_state_def new_GameState_def fragment_key_def
      upt_conv_Cons)

lemma keeps_consumed_same:
  "fragments_active t = fragments_active s \<Longrightarrow> keeps_consumed s t"
  by (simp add: keeps_consumed_def)

lemma keeps_consumed_trans:
  "keeps_consumed s t \<Longrightarrow> keeps_consumed t u \<Longrightarrow> keeps_consumed s u"
  unfolding keeps_consumed_def by (metis le_trans less_le_trans)

lemma proactive_check_fragments:
  "fragments_active (snd (proactive_check sha ct stage s)) = fragments_active s"
  by (cases "proactive_attempt sha ct stage s")
    (simp_all add: proactive_check_no_attempt proactive_check_attempt Let_def)

lemma event_branch_fragments:
  "fragments_active (snd (snd (event_branch event m s))) = fragments_active s"
  by (simp add: event_branch_def Let_def split: option.splits)

lemma trigger_check_keeps:
  "keeps_consumed s (snd (fragment_trigger_check sha loc stage s))"
  unfolding keeps_consumed_def
proof (intro conjI allI impI)
  show "length (fragments_active s) \<le> length (fragments_active (snd (fragment_trigger_check sha loc stage s)))"
    by (simp add: trigger_check_frame(1))
next
  fix i assume i: "i < length (fragments_active s)" and c: "consumed (fragments_active s ! i)"
  have "i \<notin> set (eligible_positions s loc)"
    using c by (simp add: eligible_positions_iff fragment_eligible_def)
  then have "selected_position s loc \<noteq> Some i"
    using selected_position_best(1) [where s = s and loc = loc and i = i] by blast
  then show "fragments_active (snd (fragment_trigger_check sha loc stage s)) ! i = fragments_active s ! i"
    using trigger_check_frame(2) [OF i] by blast
qed

lemma action_select_keeps:
  "keeps_consumed s (snd (action_select sha ct loc slot stage s))"
proof (cases "ap (resources s) \<le> 0")
  case True
  then show ?thesis by (simp add: action_select_def keeps_consumed_same)
next
  case False
  let ?s1 = "s\<lparr>resources := (resources s)\<lparr>ap := ap (resources s) - 1\<rparr>,
               current_context := \<lparr>event_id = None, location = Some loc,
                                    time_slot = Some slot, stage_id = Some stage\<rparr>\<rparr>"
  have k1: "keeps_consumed s ?s1" by (simp add: keeps_consumed_same)
  obtain r s2 where f: "fragment_trigger_check sha loc stage ?s1 = (r, s2)" by fastforce
  have k2: "keeps_consumed s s2"
    using keeps_consumed_trans [OF k1 trigger_check_keeps [of ?s1 sha loc stage] ] f by simp
  show ?thesis
  proof (cases r)
    case (Inl e)
    then show ?thesis using False f k2 by (simp add: action_select_def)
  next
    case (Inr m)
    show ?thesis
    proof (cases "select_event sha ct loc slot s2")
      case None
      have "fragments_active (snd (action_select sha ct loc slot stage s)) = fragments_active s2"
        using False f Inr None
        by (simp add: action_select_def split_beta Let_def proactive_check_fragments)
      then show ?thesis using k2 by (simp add: keeps_consumed_def)
    next
      case (Some event)
      have "fragments_active (snd (action_select sha ct loc slot stage s)) = fragments_active s2"
        using False f Inr Some
        by (simp add: action_select_def split_beta Let_def proactive_check_fragments
            event_branch_fragments)
      then show ?thesis using k2 by (simp add: keeps_consumed_def)
    qed
  qed
qed

lemma chat_keeps: "keeps_consumed s (snd (chat sha text ct stage s))"
  by (rule keeps_consumed_same)
    (simp add: chat_def split_beta Let_def proactive_check_fragments)

lemma day_start_keeps: "keeps_consumed s (snd (day_start config s))"
  by (rule keeps_consumed_same) (simp add: day_start_def split: sum.splits)

lemma build_response_keeps: "keeps_consumed s (resp_state (build_response tid s ms hs))"
  by (rule keeps_consumed_same) (simp add: build_response_def)

lemma day_end_keeps:
  "fragments_active (snd (day_end sha config ct s)) = [] \<or> keeps_consumed s (snd (day_end sha config ct s))"
proof (cases "day_index s + 1 > days_per_run config")
  case True
  then show ?thesis
    by (simp add: day_end_past_last_day run_end_deep(3))
next
  case False
  then have "fragments_active (snd (day_end sha config ct s)) =
    (case pick_fragment s config of None \<Rightarrow> fragments_active s
     | Some fragment \<Rightarrow> fragments_active s @ [fragment])"
    by (simp add: day_end_def Let_def split_beta split: option.splits)
  then have "keeps_consumed s (snd (day_end sha config ct s))"
    by (simp add: keeps_consumed_def nth_append split: option.splits)
  then show ?thesis by blast
qed

lemma step_keeps:
  "fragments_active (step sha config ct c s) = [] \<or> keeps_consumed s (step sha config ct c s)"
  by (cases c)
    (simp_all add: day_start_keeps action_select_keeps chat_keeps day_end_keeps build_response_keeps)

lemma states_after_keep:
  assumes "\<forall>t\<in>set (states_after sha config ct calls s). fragments_active t \<noteq> []"
  shows "\<forall>t\<in>set (states_after sha config ct calls s). keeps_consumed s t"
  using assms
proof (induction calls arbitrary: s)
  case Nil
  show ?case by simp
next
  case (Cons c cs)
  let ?t = "step sha config ct c s"
  from Cons.prems have ne: "fragments_active ?t \<noteq> []"
    and rest: "\<forall>u\<in>set (states_after sha config ct cs ?t). fragments_active u \<noteq> []" by simp_all
  from step_keeps [of sha config ct c s] ne have k: "keeps_consumed s ?t" by blast
  from Cons.IH [OF rest] have "\<forall>u\<in>set (states_after sha config ct cs ?t). keeps_consumed ?t u" .
  with k have "\<forall>u\<in>set (states_after sha config ct cs ?t). keeps_consumed s u"
    using keeps_consumed_trans by blast
  with k show ?case by simp
qed

text \<open>
  Claim C9. In every state, a fragment whose \<^verbatim>\<open>consumed\<close> flag is set is not eligible and
  not selected at any location, day or stage: the trigger check leaves it as it was, and
  the trace entry that the check may append is for another, unconsumed fragment. Along
  every sequence of calls the fragment stays at its position as it was, consumed, for as
  long as no run end has emptied the active list.
\<close>

theorem consumed_fragment_never_checked:
  assumes "i < length (fragments_active s)" and "consumed (fragments_active s ! i)"
  shows "i \<notin> set (eligible_positions s loc)
    \<and> selected_position s loc \<noteq> Some i
    \<and> fragments_active (snd (fragment_trigger_check sha loc stage s)) ! i = fragments_active s ! i
    \<and> (trace_log (snd (fragment_trigger_check sha loc stage s)) = trace_log s
        \<or> (\<exists>j<length (fragments_active s). j \<noteq> i \<and> \<not> consumed (fragments_active s ! j)
              \<and> trace_log (snd (fragment_trigger_check sha loc stage s)) =
                  trace_log s @ [fragment_roll_entry (fragments_active s ! j)
                                   (fragment_roll sha s stage (fragments_active s ! j)) stage]))
    \<and> ((\<forall>t\<in>set (states_after sha config ct calls s). fragments_active t \<noteq> []) \<longrightarrow>
          (\<forall>t\<in>set (states_after sha config ct calls s).
              i < length (fragments_active t) \<and> fragments_active t ! i = fragments_active s ! i))"
proof -
  have ne: "i \<notin> set (eligible_positions s loc)"
    using assms(2) by (simp add: eligible_positions_iff fragment_eligible_def)
  then have ns: "selected_position s loc \<noteq> Some i"
    using selected_position_best(1) [where s = s and loc = loc and i = i] by blast
  have same: "fragments_active (snd (fragment_trigger_check sha loc stage s)) ! i = fragments_active s ! i"
    using trigger_check_frame(2) [OF assms(1) ns] .
  have tr: "trace_log (snd (fragment_trigger_check sha loc stage s)) = trace_log s
        \<or> (\<exists>j<length (fragments_active s). j \<noteq> i \<and> \<not> consumed (fragments_active s ! j)
              \<and> trace_log (snd (fragment_trigger_check sha loc stage s)) =
                  trace_log s @ [fragment_roll_entry (fragments_active s ! j)
                                   (fragment_roll sha s stage (fragments_active s ! j)) stage])"
  proof (cases "selected_position s loc")
    case None
    then show ?thesis by (simp add: trigger_check_not_selected)
  next
    case (Some j)
    show ?thesis
    proof (cases "already_checked s stage j")
      case True
      then show ?thesis using Some by (simp add: trigger_check_skip)
    next
      case False
      from selected_position_best(1) [OF Some]
      have "j < length (fragments_active s)" "\<not> consumed (fragments_active s ! j)"
        by (simp_all add: eligible_positions_iff fragment_eligible_def)
      moreover have "j \<noteq> i" using Some ns by blast
      ultimately show ?thesis using trigger_check_roll(1) [OF Some False, where sha = sha] by blast
    qed
  qed
  have later: "\<forall>t\<in>set (states_after sha config ct calls s).
              i < length (fragments_active t) \<and> fragments_active t ! i = fragments_active s ! i"
    if "\<forall>t\<in>set (states_after sha config ct calls s). fragments_active t \<noteq> []"
  proof
    fix t assume "t \<in> set (states_after sha config ct calls s)"
    with states_after_keep [OF that] have "keeps_consumed s t" by blast
    with assms show "i < length (fragments_active t) \<and> fragments_active t ! i = fragments_active s ! i"
      unfolding keeps_consumed_def by (metis less_le_trans)
  qed
  from ne ns same tr later show ?thesis by blast
qed

lemma market_visit_fragments:
  "map (\<lambda>t. map fragment_id (fragments_active t))
     (states_after zero_sha (demo_config 7 3) demo_content market_visit consumed_state)
   = [ [''f1'', ''f2''], [''f1'', ''f2''], [''f1'', ''f2''] ]"
  by (simp add: market_visit_def consumed_state_def demo_state_def new_GameState_def
      demo_content_def demo_config_def action_select_def fragment_trigger_check_def
      eligible_positions_def fragment_eligible_def consumed_fragment_def demo_fragment_def
      fragment_key_def upt_conv_Cons fragment_roll_def roll_with_pity_def stable_seed_def
      zero_sha_def select_event_def select_weighted_def proactive_check_def Let_def
      day_end_def pick_fragment_def days_per_run_def get_or_def new_CurrentContext_def)

lemma market_visit_states:
  assumes "t \<in> set (states_after zero_sha (demo_config 7 3) demo_content market_visit consumed_state)"
  shows "map fragment_id (fragments_active t) = [''f1'', ''f2'']"
proof -
  from assms have "map fragment_id (fragments_active t)
      \<in> set (map (\<lambda>t. map fragment_id (fragments_active t))
           (states_after zero_sha (demo_config 7 3) demo_content market_visit consumed_state))"
    by (simp only: set_map image_eqI)
  then show ?thesis unfolding market_visit_fragments by simp
qed

text \<open>
  A consumed fragment of salience 0.9 beside an unconsumed one of salience 0.3: the check
  rolls for the second. After an action at the market, a day end and another action, the
  first fragment is still what it was.
\<close>

theorem consumed_fragment_never_checked_witness:
  "0 < length (fragments_active consumed_state)
   \<and> consumed (fragments_active consumed_state ! 0)
   \<and> selected_position consumed_state ''market'' = Some 1
   \<and> fragments_active (snd (fragment_trigger_check zero_sha ''market'' ''event_flow'' consumed_state)) ! 0
       = consumed_fragment ''f1'' (9 / 10) 0
   \<and> map te_subject (trace_log (snd (fragment_trigger_check zero_sha ''market'' ''event_flow'' consumed_state)))
       = [''f2'']
   \<and> map (\<lambda>t. map fragment_id (fragments_active t))
        (states_after zero_sha (demo_config 7 3) demo_content market_visit consumed_state)
       = [ [''f1'', ''f2''], [''f1'', ''f2''], [''f1'', ''f2''] ]
   \<and> map (\<lambda>t. fragments_active t ! 0)
        (states_after zero_sha (demo_config 7 3) demo_content market_visit consumed_state)
       = [consumed_fragment ''f1'' (9 / 10) 0, consumed_fragment ''f1'' (9 / 10) 0,
          consumed_fragment ''f1'' (9 / 10) 0]"
proof -
  let ?S = "states_after zero_sha (demo_config 7 3) demo_content market_visit consumed_state"
  have l: "0 < length (fragments_active consumed_state)"
    and c: "consumed (fragments_active consumed_state ! 0)"
    and f: "fragments_active consumed_state ! 0 = consumed_fragment ''f1'' (9 / 10) 0"
    by (simp_all add: consumed_state_def consumed_fragment_def)
  have n: "\<not> already_checked consumed_state ''event_flow'' 1"
    by (simp add: already_checked_def consumed_state_def demo_fragment_def)
  have t: "map te_subject (trace_log (snd (fragment_trigger_check zero_sha ''market'' ''event_flow'' consumed_state)))
       = [''f2'']"
    unfolding trigger_check_roll(1) [OF consumed_state_selected n]
    by (simp add: fragment_roll_entry_def consumed_state_def demo_fragment_def demo_state_def new_GameState_def)
  have ne: "\<forall>t\<in>set ?S. fragments_active t \<noteq> []"
    using market_visit_states by fastforce
  note inst = consumed_fragment_never_checked [OF l c, where loc = "''market''" and sha = zero_sha
      and stage = "''event_flow''" and config = "demo_config 7 3" and ct = demo_content
      and calls = market_visit]
  from inst f have first:
    "fragments_active (snd (fragment_trigger_check zero_sha ''market'' ''event_flow'' consumed_state)) ! 0
       = consumed_fragment ''f1'' (9 / 10) 0" by simp
  from inst ne f have "\<forall>t\<in>set ?S. fragments_active t ! 0 = consumed_fragment ''f1'' (9 / 10) 0"
    by simp
  then have "map (\<lambda>t. fragments_active t ! 0) ?S = map (\<lambda>t. consumed_fragment ''f1'' (9 / 10) 0) ?S"
    by (simp only: map_eq_conv)
  moreover have "length ?S = 3"
    using arg_cong [OF market_visit_fragments, of length] by simp
  ultimately have later: "map (\<lambda>t. fragments_active t ! 0) ?S
       = [consumed_fragment ''f1'' (9 / 10) 0, consumed_fragment ''f1'' (9 / 10) 0,
          consumed_fragment ''f1'' (9 / 10) 0]"
    by (simp add: map_replicate_const numeral_3_eq_3)
  from l c consumed_state_selected first t market_visit_fragments later
  show ?thesis by (intro conjI)
qed

end
